theory Spec2Isabelle
  imports Complex_Main "HOL-Library.AList" "HOL-Library.Word"
begin

section \<open>Python values and strings\<close>

text \<open>
  The backend is Python. A \<open>str\<close> is modelled as a \<open>string\<close> in which every
  \<open>char\<close> stands for one code point below 256; the built-in string methods the
  code calls are written out on that range. The values that \<open>json.loads\<close> can
  produce (and that the request body of \<open>/fill\<close> can carry) are the seven
  shapes of \<open>pyobj\<close>; a \<open>dict\<close> is an association list in insertion order,
  whose keys are distinct in Python.
\<close>

datatype pyobj =
    PNone
  | PBool bool
  | PInt int
  | PFloat "64 word"
  | PStr string
  | PList "pyobj list"
  | PDict "(string \<times> pyobj) list"

type_synonym pydict = "(string \<times> pyobj) list"

datatype error =
    RuntimeError string
  | AttributeError
  | IndexError
  | FileDataError string

text \<open>\<open>d.get(k)\<close> and \<open>d[k] = v\<close>.\<close>

definition dict_get :: "pydict \<Rightarrow> string \<Rightarrow> pyobj" where
  "dict_get d k = (case map_of d k of None \<Rightarrow> PNone | Some v \<Rightarrow> v)"

definition dict_set :: "pydict \<Rightarrow> string \<Rightarrow> pyobj \<Rightarrow> pydict" where
  "dict_set d k v = AList.update k v d"

text \<open>\<open>bool(v)\<close>, the truth value tested by \<open>if not value\<close> and \<open>value or ''\<close>.\<close>

fun truthy :: "pyobj \<Rightarrow> bool" where
  "truthy PNone = False"
| "truthy (PBool b) = b"
| "truthy (PInt i) = (i \<noteq> 0)"
| "truthy (PFloat w) = (take_bit 63 w \<noteq> 0)"
| "truthy (PStr s) = (s \<noteq> [])"
| "truthy (PList xs) = (xs \<noteq> [])"
| "truthy (PDict kvs) = (kvs \<noteq> [])"

text \<open>\<open>str.isspace\<close> of one character, which is what \<open>split()\<close> and \<open>strip()\<close> test.\<close>

definition isspace :: "char \<Rightarrow> bool" where
  "isspace c \<longleftrightarrow> (of_char c :: nat) \<in> {9, 10, 11, 12, 13, 28, 29, 30, 31, 32, 133, 160}"

text \<open>
  \<open>str.lower\<close>: the letters A to Z and the upper-case letters of the range 192 to 222
  (all but the multiplication sign, 215) move up by 32, which sets bit 5.
\<close>

fun lower_char :: "char \<Rightarrow> char" where
  "lower_char (Char b0 b1 b2 b3 b4 b5 b6 b7) =
     (let n = (of_char (Char b0 b1 b2 b3 b4 b5 b6 b7) :: nat)
      in if (65 \<le> n \<and> n \<le> 90) \<or> (192 \<le> n \<and> n \<le> 222 \<and> n \<noteq> 215)
         then Char b0 b1 b2 b3 b4 True b6 b7
         else Char b0 b1 b2 b3 b4 b5 b6 b7)"

definition str_lower :: "string \<Rightarrow> string" where
  "str_lower s = map lower_char s"

text \<open>\<open>s.split()\<close> with no separator: the maximal runs of non-space characters.\<close>

fun split_run :: "string \<Rightarrow> string \<Rightarrow> string list" where
  "split_run cur [] = (if cur = [] then [] else [cur])"
| "split_run cur (c # cs) =
     (if isspace c
      then (if cur = [] then split_run [] cs else cur # split_run [] cs)
      else split_run (cur @ [c]) cs)"

definition str_split :: "string \<Rightarrow> string list" where
  "str_split s = split_run [] s"

text \<open>\<open>sep.join(xs)\<close>.\<close>

fun str_join :: "string \<Rightarrow> string list \<Rightarrow> string" where
  "str_join sep [] = []"
| "str_join sep [x] = x"
| "str_join sep (x # y # ys) = x @ sep @ str_join sep (y # ys)"

text \<open>\<open>s.startswith(p)\<close> and \<open>sub in s\<close>.\<close>

definition str_startswith :: "string \<Rightarrow> string \<Rightarrow> bool" where
  "str_startswith s p \<longleftrightarrow> take (length p) s = p"

fun str_contains :: "string \<Rightarrow> string \<Rightarrow> bool" where
  "str_contains sub [] = (sub = [])"
| "str_contains sub (c # cs) = (str_startswith (c # cs) sub \<or> str_contains sub cs)"

text \<open>\<open>s.strip()\<close>.\<close>

definition str_strip :: "string \<Rightarrow> string" where
  "str_strip s = rev (dropWhile isspace (rev (dropWhile isspace s)))"

text \<open>
  \<open>s.splitlines()\<close>: a line ends at a line feed, a carriage return (with the line feed
  that follows it, if any), a vertical tab, a form feed, or one of the code points
  28, 29, 30 and 133; the text after the last line end is a line only if it is not empty.
\<close>

definition is_linebreak :: "char \<Rightarrow> bool" where
  "is_linebreak c \<longleftrightarrow> (of_char c :: nat) \<in> {10, 11, 12, 13, 28, 29, 30, 133}"

fun lines_run :: "string \<Rightarrow> string \<Rightarrow> string list" where
  "lines_run cur [] = (if cur = [] then [] else [cur])"
| "lines_run cur (c # cs) =
     (if is_linebreak c
      then cur # (case cs of
                    [] \<Rightarrow> []
                  | d # ds \<Rightarrow> if c = CHR 0x0D \<and> d = CHR 0x0A then lines_run [] ds
                              else lines_run [] (d # ds))
      else lines_run (cur @ [c]) cs)"

definition str_splitlines :: "string \<Rightarrow> string list" where
  "str_splitlines s = lines_run [] s"

section \<open>The field verifier of gemini.py\<close>

text \<open>
  The comparison form of a text, written inline in the source as
  \<open>" ".join(s.lower().split())\<close>.
\<close>

definition normalize_text :: "string \<Rightarrow> string" where
  "normalize_text s = str_join '' '' (str_split (str_lower s))"

definition FIELD_KEYS :: "string list" where
  "FIELD_KEYS = [''name'', ''dob'', ''address'', ''phone'', ''email'']"

text \<open>One round of the loop of \<open>_enforce_substring_constraints\<close>.\<close>

definition enforce_key :: "string \<Rightarrow> string \<Rightarrow> pydict \<Rightarrow> pydict" where
  "enforce_key ocr_norm key data =
     (case dict_get data key of
        PStr val \<Rightarrow>
          (let val_norm = normalize_text val
           in if val_norm \<noteq> [] \<and> \<not> str_contains val_norm ocr_norm
              then dict_set data key PNone
              else data)
      | _ \<Rightarrow> data)"

text \<open>
  \<open>_enforce_substring_constraints(data, raw_text)\<close>. The first \<open>data.get\<close> raises
  \<open>AttributeError\<close> when \<open>data\<close> is not a dict.
\<close>

definition enforce_substring_constraints :: "pyobj \<Rightarrow> string \<Rightarrow> error + pydict" where
  "enforce_substring_constraints data raw_text =
     (let ocr_norm = normalize_text raw_text
      in case data of
           PDict d \<Rightarrow> Inr (fold (enforce_key ocr_norm) FIELD_KEYS d)
         | _ \<Rightarrow> Inl AttributeError)"

text \<open>
  The verdict of the loop body on what \<open>data.get(key)\<close> finds: a value is rejected
  when it is a string whose comparison form is not empty and does not occur in the
  comparison form of the source text.
\<close>

definition rejected :: "string \<Rightarrow> pyobj option \<Rightarrow> bool" where
  "rejected ocr_norm v \<longleftrightarrow>
     (case v of
        Some (PStr s) \<Rightarrow> normalize_text s \<noteq> [] \<and> \<not> str_contains (normalize_text s) ocr_norm
      | _ \<Rightarrow> False)"

section \<open>The field extractor of gemini.py\<close>

text \<open>
  What the function takes from outside the repository: the module-level \<open>API_KEY\<close>
  read from the environment, the request to the model (\<open>generate_content\<close> followed by
  \<open>response.text\<close>, which either raises, \<open>Inl\<close> of the exception's text, or gives the
  response text), and \<open>json.loads\<close>, where \<open>None\<close> stands for \<open>JSONDecodeError\<close>.
\<close>

record gemini_env =
  API_KEY :: "string option"
  generate_content :: "string \<Rightarrow> string + string"
  json_loads :: "string \<Rightarrow> pyobj option"

definition get_model :: "gemini_env \<Rightarrow> error + unit" where
  "get_model env =
     (case API_KEY env of
        None \<Rightarrow> Inl (RuntimeError ''GEMINI_API_KEY is not set in environment or .env file'')
      | Some k \<Rightarrow>
          if k = [] then Inl (RuntimeError ''GEMINI_API_KEY is not set in environment or .env file'')
          else Inr ())"

definition newline :: string where
  "newline = [CHR 0x0A]"

definition prompt :: "string \<Rightarrow> string" where
  "prompt raw_text = str_join newline
     [[],
      ''You are an information extraction engine for ID cards and forms.'',
      [],
      ''Given the OCR text of a filled document, extract the following fields when present:'',
      ''- full name'',
      ''- date of birth'',
      ''- address'',
      ''- phone number'',
      ''- email'',
      [],
      ''VERY IMPORTANT CONSTRAINTS:'',
      ''- You must only use substrings that appear exactly in OCR_TEXT.'',
      ''- Do not hallucinate or guess any value that is not clearly present.'',
      ''- If you are not 100% sure a value is explicitly present in OCR_TEXT, set it to null.'',
      [],
      ''Return ONLY a valid JSON object with keys:'',
      ''  name, dob, address, phone, email'',
      ''Missing values must be null.'',
      [],
      ''OCR_TEXT:'',
      [],
      raw_text,
      []]"

text \<open>
  The code-fence step, inline in the source: a text that starts with three backquotes
  and has at least three lines loses its first and its last line, whatever the last
  line is.
\<close>

definition strip_code_fence :: "string \<Rightarrow> string" where
  "strip_code_fence text =
     (if str_startswith text [CHR 0x60, CHR 0x60, CHR 0x60]
      then (let lines = str_splitlines text
            in if 3 \<le> length lines then str_join newline (butlast (tl lines)) else text)
      else text)"

definition null_fields :: pydict where
  "null_fields =
     [(''name'', PNone), (''dob'', PNone), (''address'', PNone), (''phone'', PNone),
      (''email'', PNone)]"

definition extract_fields_with_gemini :: "gemini_env \<Rightarrow> string \<Rightarrow> error + pydict" where
  "extract_fields_with_gemini env raw_text =
     (case get_model env of
        Inl e \<Rightarrow> Inl e
      | Inr model \<Rightarrow>
          (case generate_content env (prompt raw_text) of
             Inl exc \<Rightarrow>
               Inr (null_fields @
                    [(''raw_text'', PStr raw_text),
                     (''_error'', PStr (''Gemini request failed: '' @ exc))])
           | Inr response_text \<Rightarrow>
               (let text = strip_code_fence (str_strip response_text);
                    data = (case json_loads env text of
                              Some parsed \<Rightarrow> parsed
                            | None \<Rightarrow> PDict (null_fields @ [(''_raw_model_output'', PStr text)]))
                in case enforce_substring_constraints data raw_text of
                     Inl e \<Rightarrow> Inl e
                   | Inr checked \<Rightarrow> Inr (dict_set checked ''raw_text'' (PStr raw_text)))))"

section \<open>The template filler of pdf_fill.py\<close>

text \<open>
  A path is the list of its components; \<open>name\<close>, \<open>suffix\<close> and \<open>stem\<close> read the last
  one, as \<open>pathlib\<close> does: the suffix starts at the last dot of the name, unless
  that dot is the first or the last character.
\<close>

type_synonym path = "string list"

definition path_name :: "path \<Rightarrow> string" where
  "path_name p = (if p = [] then [] else last p)"

definition rfind_dot :: "string \<Rightarrow> nat option" where
  "rfind_dot s =
     (let n = length (takeWhile (\<lambda>c. c \<noteq> CHR ''.'') (rev s))
      in if n = length s then None else Some (length s - 1 - n))"

definition path_suffix :: "path \<Rightarrow> string" where
  "path_suffix p =
     (let name = path_name p
      in case rfind_dot name of
           None \<Rightarrow> []
         | Some i \<Rightarrow> if 0 < i \<and> i < length name - 1 then drop i name else [])"

definition path_stem :: "path \<Rightarrow> string" where
  "path_stem p =
     (let name = path_name p
      in case rfind_dot name of
           None \<Rightarrow> name
         | Some i \<Rightarrow> if 0 < i \<and> i < length name - 1 then take i name else name)"

definition path_div :: "path \<Rightarrow> string \<Rightarrow> path" where
  "path_div p name = p @ [name]"

text \<open>
  Page coordinates are floats in the source and reals here. A page is what the
  library opened (or the blank page of \<open>new_page\<close>) together with the texts inserted
  since, in order. The library is taken as it comes: \<open>fitz.open\<close> of the template,
  which raises on a file it cannot read, \<open>page.search_for\<close>, and \<open>str(v)\<close> of a value
  that is not a string. Creating the output directory and writing the file are not
  modelled as failing.
\<close>

record rect =
  x0 :: real
  y0 :: real
  x1 :: real
  y1 :: real

record text_insert =
  ins_point :: "real \<times> real"
  ins_text :: string
  ins_fontsize :: nat
  ins_fill :: "(nat \<times> nat \<times> nat) option"

record 'c page =
  content :: 'c
  inserted :: "text_insert list"

record 'c pdf_env =
  is_file :: "path \<Rightarrow> bool"
  fitz_open :: "path \<Rightarrow> error + 'c page list"
  blank :: 'c
  search_for :: "'c page \<Rightarrow> string \<Rightarrow> rect list"
  py_str :: "pyobj \<Rightarrow> string"

record 'c filled =
  returned :: path
  saved_path :: path
  saved_doc :: "'c page list"

definition insert_text ::
  "'c page \<Rightarrow> real \<times> real \<Rightarrow> string \<Rightarrow> nat \<Rightarrow> (nat \<times> nat \<times> nat) option \<Rightarrow> 'c page" where
  "insert_text pg pt s fsize colour =
     pg\<lparr>inserted := inserted pg @
          [\<lparr>ins_point = pt, ins_text = s, ins_fontsize = fsize, ins_fill = colour\<rparr>]\<rparr>"

definition to_str :: "'c pdf_env \<Rightarrow> pyobj \<Rightarrow> string" where
  "to_str env v = (case v of PStr s \<Rightarrow> s | _ \<Rightarrow> py_str env v)"

text \<open>\<open>fields.get(k) if isinstance(fields, dict) else None\<close>.\<close>

definition field_of :: "pyobj \<Rightarrow> string \<Rightarrow> pyobj" where
  "field_of flds k = (case flds of PDict d \<Rightarrow> dict_get d k | _ \<Rightarrow> PNone)"

text \<open>The test made twice in the source, before opening and before filling.\<close>

definition uses_template :: "'c pdf_env \<Rightarrow> path option \<Rightarrow> bool" where
  "uses_template env template =
     (case template of
        None \<Rightarrow> False
      | Some t \<Rightarrow> is_file env t \<and> str_lower (path_suffix t) = ''.pdf'')"

definition label_map :: "pyobj \<Rightarrow> (string \<times> pyobj) list" where
  "label_map flds =
     [(''Full Name:'', field_of flds ''name''),
      (''Current Address:'', field_of flds ''address''),
      (''Telephone Number:'', field_of flds ''phone''),
      (''Email Address:'', field_of flds ''email''),
      (''Name:'', field_of flds ''name''),
      (''Date of Birth:'', field_of flds ''dob'')]"

text \<open>Where a value goes for a label found at \<open>r\<close>.\<close>

definition label_point :: "rect \<Rightarrow> real \<times> real" where
  "label_point r = (x1 r + 8, y0 r + (y1 r - y0 r) * (7 / 10))"

text \<open>One round of the loop over \<open>label_map.items()\<close>.\<close>

definition place_label :: "'c pdf_env \<Rightarrow> string \<times> pyobj \<Rightarrow> 'c page \<Rightarrow> 'c page" where
  "place_label env item pg =
     (case item of
        (label, v) \<Rightarrow>
          if \<not> truthy v then pg
          else (case search_for env pg label of
                  [] \<Rightarrow> pg
                | r # _ \<Rightarrow> insert_text pg (label_point r) (to_str env v) 10 (Some (0, 0, 0))))"

text \<open>\<open>f"{v or ''}"\<close>.\<close>

definition or_empty :: "'c pdf_env \<Rightarrow> pyobj \<Rightarrow> string" where
  "or_empty env v = (if truthy v then to_str env v else [])"

definition summary_text :: "'c pdf_env \<Rightarrow> pyobj \<Rightarrow> string" where
  "summary_text env flds = str_join newline
     [''Smart Form Filler - Extracted Data'',
      [],
      ''Name: '' @ or_empty env (field_of flds ''name''),
      ''Date of Birth: '' @ or_empty env (field_of flds ''dob''),
      ''Address: '' @ or_empty env (field_of flds ''address''),
      ''Phone: '' @ or_empty env (field_of flds ''phone''),
      ''Email: '' @ or_empty env (field_of flds ''email'')]"

definition summary_page :: "'c pdf_env \<Rightarrow> pyobj \<Rightarrow> 'c page" where
  "summary_page env flds =
     insert_text \<lparr>content = blank env, inserted = []\<rparr> (72, 72) (summary_text env flds) 12 None"

definition generate_filled_pdf ::
  "'c pdf_env \<Rightarrow> pyobj \<Rightarrow> path \<Rightarrow> path option \<Rightarrow> error + 'c filled" where
  "generate_filled_pdf env flds output_dir template =
     (case (if uses_template env template then template else None) of
        Some t \<Rightarrow>
          (case fitz_open env t of
             Inl e \<Rightarrow> Inl e
           | Inr doc \<Rightarrow>
               (case doc of
                  [] \<Rightarrow> Inl IndexError
                | pg # rest \<Rightarrow>
                    (let pdf_path = path_div output_dir (path_stem t @ ''_filled.pdf'');
                         filled_page = fold (place_label env) (label_map flds) pg
                     in Inr \<lparr>returned = pdf_path, saved_path = pdf_path,
                             saved_doc = filled_page # rest\<rparr>)))
      | None \<Rightarrow>
          (let pdf_path = path_div output_dir ''filled_form.pdf'';
               pg = summary_page env flds
           in Inr \<lparr>returned = pdf_path, saved_path = pdf_path, saved_doc = [pg]\<rparr>))"

section \<open>Properties of results, and example environments\<close>

text \<open>All five fields read as \<open>None\<close>.\<close>

definition all_fields_null :: "pydict \<Rightarrow> bool" where
  "all_fields_null d \<longleftrightarrow> list_all (\<lambda>k. dict_get d k = PNone) FIELD_KEYS"

text \<open>
  Every field is \<open>None\<close> or a string whose comparison form occurs in that of the
  source text.
\<close>

definition fields_verified :: "string \<Rightarrow> pydict \<Rightarrow> bool" where
  "fields_verified raw_text d \<longleftrightarrow>
     list_all (\<lambda>k. case dict_get d k of
                     PNone \<Rightarrow> True
                   | PStr s \<Rightarrow> str_contains (normalize_text s) (normalize_text raw_text)
                   | _ \<Rightarrow> False) FIELD_KEYS"

text \<open>
  The five fields and \<open>raw_text\<close> are keys; every key is one of them or one of the
  two marker keys the code writes; the fields hold strings or \<open>None\<close>; \<open>raw_text\<close>
  holds the source.
\<close>

definition is_str_or_none :: "pyobj \<Rightarrow> bool" where
  "is_str_or_none v \<longleftrightarrow> (case v of PNone \<Rightarrow> True | PStr s \<Rightarrow> True | _ \<Rightarrow> False)"

definition extracted_shape :: "string \<Rightarrow> pydict \<Rightarrow> bool" where
  "extracted_shape raw_text d \<longleftrightarrow>
     list_all (\<lambda>k. k \<in> set (map fst d)) (FIELD_KEYS @ [''raw_text''])
     \<and> list_all (\<lambda>k. k \<in> set (FIELD_KEYS @ [''raw_text'', ''_error'', ''_raw_model_output'']))
           (map fst d)
     \<and> list_all (\<lambda>k. is_str_or_none (dict_get d k)) FIELD_KEYS
     \<and> dict_get d ''raw_text'' = PStr raw_text"

text \<open>The keys of a result, by the path the call took.\<close>

definition result_keys :: "gemini_env \<Rightarrow> string \<Rightarrow> string set" where
  "result_keys env raw_text =
     (case generate_content env (prompt raw_text) of
        Inl exc \<Rightarrow> set FIELD_KEYS \<union> {''raw_text'', ''_error''}
      | Inr response_text \<Rightarrow>
          (case json_loads env (strip_code_fence (str_strip response_text)) of
             None \<Rightarrow> set FIELD_KEYS \<union> {''raw_text'', ''_raw_model_output''}
           | Some (PDict kvs) \<Rightarrow> set (map fst kvs) \<union> {''raw_text''}
           | Some _ \<Rightarrow> {}))"

text \<open>
  The response is one the verifier can take: the request failed, or the text is not
  JSON, or it is a JSON object.
\<close>

definition object_or_failure :: "gemini_env \<Rightarrow> string \<Rightarrow> bool" where
  "object_or_failure env raw_text \<longleftrightarrow>
     (case generate_content env (prompt raw_text) of
        Inl exc \<Rightarrow> True
      | Inr response_text \<Rightarrow>
          (case json_loads env (strip_code_fence (str_strip response_text)) of
             None \<Rightarrow> True
           | Some (PDict kvs) \<Rightarrow> True
           | Some _ \<Rightarrow> False))"

text \<open>
  Environments to run the extractor in: a configured one where the model answers
  \<open>response\<close> and \<open>json.loads\<close> of that answer is \<open>parsed\<close>; a configured one where
  the request raises; one without an API key.
\<close>

definition answering_env :: "string \<Rightarrow> pyobj option \<Rightarrow> gemini_env" where
  "answering_env response parsed =
     \<lparr>API_KEY = Some ''test-key'',
      generate_content = (\<lambda>p. Inr response),
      json_loads = (\<lambda>t. if t = response then parsed else None)\<rparr>"

definition failing_env :: "string \<Rightarrow> gemini_env" where
  "failing_env message =
     \<lparr>API_KEY = Some ''test-key'',
      generate_content = (\<lambda>p. Inl message),
      json_loads = (\<lambda>t. None)\<rparr>"

definition unconfigured_env :: gemini_env where
  "unconfigured_env =
     \<lparr>API_KEY = None,
      generate_content = (\<lambda>p. Inl ''unreachable''),
      json_loads = (\<lambda>t. None)\<rparr>"

definition number_response :: string where
  \<open>number_response = ''{"name": 42}''\<close>

definition blank_response :: string where
  \<open>blank_response = ''{"name": " "}''\<close>

definition other_key_response :: string where
  \<open>other_key_response = ''{"foo": 1}''\<close>

definition john_source :: string where
  "john_source = ''John Smith lives in Texas''"

definition john_fields :: pydict where
  "john_fields = [(''name'', PStr ''John Smith''), (''dob'', PStr ''1990-01-01'')]"

definition john_response :: string where
  \<open>john_response = ''{"name": "John Smith", "dob": "1990-01-01"}''\<close>

definition fenced_response :: string where
  "fenced_response =
     [CHR 0x60, CHR 0x60, CHR 0x60] @ ''json'' @ newline @ ''Sorry, no data'' @ newline
       @ [CHR 0x60, CHR 0x60, CHR 0x60] @ newline"

text \<open>
  The code-fence step in the words of the comments at lines 80 and 83 (strip the fences
  if present, remove first and last fence lines), to compare with \<open>strip_code_fence\<close>:
  the first and the last line go only when each of them is a fence line.
\<close>

definition strip_fence_pair :: "string \<Rightarrow> string" where
  "strip_fence_pair text =
     (let lines = str_splitlines text
      in if 2 \<le> length lines
            \<and> str_startswith (hd lines) [CHR 0x60, CHR 0x60, CHR 0x60]
            \<and> str_startswith (last lines) [CHR 0x60, CHR 0x60, CHR 0x60]
         then str_join newline (butlast (tl lines))
         else text)"

text \<open>
  A configured environment in which the model answers \<open>response\<close> and \<open>json.loads\<close>
  accepts the one text \<open>json_text\<close>, as \<open>parsed\<close>.
\<close>

definition parsing_env :: "string \<Rightarrow> string \<Rightarrow> pyobj \<Rightarrow> gemini_env" where
  "parsing_env response json_text parsed =
     \<lparr>API_KEY = Some ''test-key'',
      generate_content = (\<lambda>p. Inr response),
      json_loads = (\<lambda>t. if t = json_text then Some parsed else None)\<rparr>"

definition name_json :: string where
  \<open>name_json = ''{"name": "John Smith"}''\<close>

definition trailing_text_response :: string where
  "trailing_text_response =
     '' '' @ [CHR 0x60, CHR 0x60, CHR 0x60] @ ''json'' @ newline @ name_json @ newline
       @ ''thanks for asking'' @ newline"

text \<open>
  A model answer in capitals and with runs of spaces, for a source text broken over two
  lines.
\<close>

definition shouted_fields :: pydict where
  "shouted_fields = [(''name'', PStr ''JOHN   SMITH''), (''dob'', PStr ''1990-01-01'')]"

definition broken_source :: string where
  "broken_source = ''John  Smith'' @ newline @ '' lives in Texas''"

text \<open>
  The claim on the document of \<open>generate_filled_pdf\<close>: one page, and for every field
  whose value passes the test \<open>provided\<close>, the string of that value is part of a text
  inserted on the page. This speaks of the texts handed to \<open>insert_text\<close>; what the
  library draws of them (it stops at the bottom of the page) is not modelled.
\<close>

definition text_inserted :: "'c page \<Rightarrow> string \<Rightarrow> bool" where
  "text_inserted pg s \<longleftrightarrow> list_ex (\<lambda>i. str_contains s (ins_text i)) (inserted pg)"

definition inserted_lists ::
  "(pyobj \<Rightarrow> bool) \<Rightarrow> 'c pdf_env \<Rightarrow> pyobj \<Rightarrow> 'c page list \<Rightarrow> bool" where
  "inserted_lists provided env flds doc \<longleftrightarrow>
     (case doc of
        [pg] \<Rightarrow>
          list_all (\<lambda>k. if provided (field_of flds k)
                         then text_inserted pg (to_str env (field_of flds k)) else True)
            FIELD_KEYS
      | _ \<Rightarrow> False)"

definition non_null :: "pyobj \<Rightarrow> bool" where
  "non_null v \<longleftrightarrow> v \<noteq> PNone"

text \<open>
  Environments to run the filler in: every path is a file; the template opens as
  \<open>doc\<close>, or fails to open; a search for \<open>label\<close> finds \<open>hits label\<close>.
\<close>

definition template_env :: "unit page list \<Rightarrow> (string \<Rightarrow> rect list) \<Rightarrow> unit pdf_env" where
  "template_env doc hits =
     \<lparr>is_file = (\<lambda>p. True),
      fitz_open = (\<lambda>p. Inr doc),
      blank = (),
      search_for = (\<lambda>pg label. hits label),
      py_str = (\<lambda>v. [])\<rparr>"

definition unreadable_env :: "unit pdf_env" where
  "unreadable_env =
     \<lparr>is_file = (\<lambda>p. True),
      fitz_open = (\<lambda>p. Inl (FileDataError ''Failed to open file'')),
      blank = (),
      search_for = (\<lambda>pg label. []),
      py_str = (\<lambda>v. [])\<rparr>"

definition empty_page :: "unit page" where
  "empty_page = \<lparr>content = (), inserted = []\<rparr>"

definition no_hits :: "string \<Rightarrow> rect list" where
  "no_hits label = []"

definition name_hit :: "string \<Rightarrow> rect list" where
  "name_hit label =
     (if label = ''Name:'' then [\<lparr>x0 = 100, y0 = 200, x1 = 150, y1 = 210\<rparr>] else [])"

definition jane :: pyobj where
  "jane = PDict [(''name'', PStr ''Jane Doe'')]"

text \<open>An environment with no template, in which \<open>str(0)\<close> is "0".\<close>

definition zero_env :: "unit pdf_env" where
  "zero_env =
     \<lparr>is_file = (\<lambda>p. False),
      fitz_open = (\<lambda>p. Inl (FileDataError ''no such file'')),
      blank = (),
      search_for = (\<lambda>pg label. []),
      py_str = (\<lambda>v. case v of PInt i \<Rightarrow> (if i = 0 then ''0'' else []) | _ \<Rightarrow> [])\<rparr>"

definition zero_name :: pyobj where
  "zero_name = PDict [(''name'', PInt 0)]"

section \<open>Lemmas\<close>

subsection \<open>Strings and the verifier loop\<close>

lemma str_contains_iff: "str_contains sub s \<longleftrightarrow> (\<exists>ps ss. s = ps @ sub @ ss)"
proof (induction s)
  case Nil
  show ?case by auto
next
  case (Cons c cs)
  have pre: "str_startswith (c # cs) sub \<longleftrightarrow> (\<exists>ss. c # cs = sub @ ss)"
    unfolding str_startswith_def
    by (metis append_eq_conv_conj append_take_drop_id)
  show ?case
  proof
    assume "str_contains sub (c # cs)"
    then consider "str_startswith (c # cs) sub" | "str_contains sub cs" by auto
    then show "\<exists>ps ss. c # cs = ps @ sub @ ss"
    proof cases
      case 1
      then obtain ss where "c # cs = sub @ ss" using pre by blast
      then have "c # cs = [] @ sub @ ss" by simp
      then show ?thesis by blast
    next
      case 2
      then obtain ps ss where "cs = ps @ sub @ ss" using Cons.IH by blast
      then have "c # cs = (c # ps) @ sub @ ss" by simp
      then show ?thesis by blast
    qed
  next
    assume "\<exists>ps ss. c # cs = ps @ sub @ ss"
    then obtain ps ss where eq: "c # cs = ps @ sub @ ss" by blast
    show "str_contains sub (c # cs)"
    proof (cases ps)
      case Nil
      with eq have "str_startswith (c # cs) sub" using pre by auto
      then show ?thesis by simp
    next
      case (Cons p ps')
      with eq have "cs = ps' @ sub @ ss" by simp
      then have "str_contains sub cs" using Cons.IH by blast
      then show ?thesis by simp
    qed
  qed
qed

lemma str_contains_Nil: "str_contains [] s"
proof -
  have "s = [] @ [] @ s" by simp
  then show ?thesis unfolding str_contains_iff by blast
qed

lemma map_of_enforce_key:
  "map_of (enforce_key ocr_norm key d) k =
     (if k = key \<and> rejected ocr_norm (map_of d key) then Some PNone else map_of d k)"
  by (auto simp: enforce_key_def rejected_def dict_get_def dict_set_def update_conv' Let_def
           split: option.splits pyobj.splits)

lemma rejected_enforce_key:
  "rejected ocr_norm (map_of (enforce_key ocr_norm key d) k) \<longleftrightarrow>
     k \<noteq> key \<and> rejected ocr_norm (map_of d k)"
  by (auto simp: map_of_enforce_key) (auto simp: rejected_def)

lemma map_of_enforce_loop:
  "map_of (fold (enforce_key ocr_norm) ks d) k =
     (if k \<in> set ks \<and> rejected ocr_norm (map_of d k) then Some PNone else map_of d k)"
proof (induction ks arbitrary: d)
  case Nil
  show ?case by simp
next
  case (Cons key ks)
  show ?case
    using rejected_enforce_key [of ocr_norm key d k]
    by (auto simp: Cons.IH map_of_enforce_key)
qed

lemma keys_enforce_key: "map fst (enforce_key ocr_norm key d) = map fst d"
proof -
  have "dict_get d key = PStr s \<Longrightarrow> key \<in> fst ` set d" for s
    by (auto simp: dict_get_def split: option.splits dest: map_of_SomeD intro: rev_image_eqI)
  then show ?thesis
    by (auto simp: enforce_key_def dict_set_def update_keys Let_def split: pyobj.splits)
qed

lemma keys_enforce_loop: "map fst (fold (enforce_key ocr_norm) ks d) = map fst d"
  by (induction ks arbitrary: d) (simp_all add: keys_enforce_key)

lemma enforce_key_accepted:
  "\<not> rejected ocr_norm (map_of d key) \<Longrightarrow> enforce_key ocr_norm key d = d"
  by (auto simp: enforce_key_def rejected_def dict_get_def Let_def split: option.splits pyobj.splits)

lemma enforce_loop_accepted:
  "\<forall>k \<in> set ks. \<not> rejected ocr_norm (map_of d k) \<Longrightarrow> fold (enforce_key ocr_norm) ks d = d"
  by (induction ks arbitrary: d) (simp_all add: enforce_key_accepted)

lemma not_rejected_enforce_loop:
  "k \<in> set ks \<Longrightarrow> \<not> rejected ocr_norm (map_of (fold (enforce_key ocr_norm) ks d) k)"
  by (simp add: map_of_enforce_loop) (simp add: rejected_def)


lemmas run_defs =
  enforce_substring_constraints_def enforce_key_def FIELD_KEYS_def dict_get_def dict_set_def
  normalize_text_def str_lower_def str_split_def isspace_def str_startswith_def
  extract_fields_with_gemini_def get_model_def null_fields_def str_strip_def strip_code_fence_def
  str_splitlines_def is_linebreak_def newline_def answering_env_def failing_env_def
  unconfigured_env_def

lemma isspace_lower_char: "isspace (lower_char c) \<longleftrightarrow> isspace c"
  by (cases c) (auto simp: isspace_def Let_def)

lemma split_run_empty: "split_run cur s = [] \<longleftrightarrow> cur = [] \<and> list_all isspace s"
  by (induction s arbitrary: cur) auto

lemma split_run_parts: "x \<in> set (split_run cur s) \<Longrightarrow> x \<noteq> [] "
  by (induction s arbitrary: cur) (auto split: if_splits)

lemma str_join_empty: "[] \<notin> set xs \<Longrightarrow> str_join sep xs = [] \<longleftrightarrow> xs = []"
  by (induction sep xs rule: str_join.induct) auto

lemma normalize_text_empty: "normalize_text s = [] \<longleftrightarrow> list_all isspace s"
proof -
  have "[] \<notin> set (str_split (str_lower s))"
    unfolding str_split_def using split_run_parts by blast
  then have "normalize_text s = [] \<longleftrightarrow> str_split (str_lower s) = []"
    unfolding normalize_text_def by (rule str_join_empty)
  also have "\<dots> \<longleftrightarrow> list_all isspace (str_lower s)"
    by (simp add: str_split_def split_run_empty)
  also have "\<dots> \<longleftrightarrow> list_all isspace s"
    by (simp add: str_lower_def list_all_iff isspace_lower_char)
  finally show ?thesis .
qed

lemma str_contains_in_empty: "str_contains sub [] \<longleftrightarrow> sub = []"
  by simp

subsection \<open>The paths of the extractor\<close>

lemma extract_unconfigured:
  "get_model env = Inl e \<Longrightarrow> extract_fields_with_gemini env raw_text = Inl e"
  by (simp add: extract_fields_with_gemini_def)

lemma extract_request_failed:
  assumes "get_model env = Inr ()" and "generate_content env (prompt raw_text) = Inl exc"
  shows "extract_fields_with_gemini env raw_text =
           Inr (null_fields @ [(''raw_text'', PStr raw_text),
                               (''_error'', PStr (''Gemini request failed: '' @ exc))])"
  using assms by (simp add: extract_fields_with_gemini_def)

lemma enforce_null_fields:
  "enforce_substring_constraints (PDict (null_fields @ [(''_raw_model_output'', v)])) raw_text =
     Inr (null_fields @ [(''_raw_model_output'', v)])"
  by (simp add: enforce_substring_constraints_def enforce_key_def FIELD_KEYS_def dict_get_def
        null_fields_def)

lemma extract_unparsable:
  assumes "get_model env = Inr ()" and "generate_content env (prompt raw_text) = Inr response"
    and "json_loads env (strip_code_fence (str_strip response)) = None"
  shows "extract_fields_with_gemini env raw_text =
           Inr (null_fields @
                [(''_raw_model_output'', PStr (strip_code_fence (str_strip response))),
                 (''raw_text'', PStr raw_text)])"
  using assms
  by (simp add: extract_fields_with_gemini_def enforce_null_fields Let_def)
     (simp add: dict_set_def null_fields_def)

lemma extract_object:
  assumes "get_model env = Inr ()" and "generate_content env (prompt raw_text) = Inr response"
    and "json_loads env (strip_code_fence (str_strip response)) = Some (PDict kvs)"
  shows "extract_fields_with_gemini env raw_text =
           Inr (dict_set (fold (enforce_key (normalize_text raw_text)) FIELD_KEYS kvs)
                  ''raw_text'' (PStr raw_text))"
  using assms
  by (simp add: extract_fields_with_gemini_def enforce_substring_constraints_def Let_def)

lemma extract_not_object:
  assumes "get_model env = Inr ()" and "generate_content env (prompt raw_text) = Inr response"
    and "json_loads env (strip_code_fence (str_strip response)) = Some parsed"
    and "\<forall>kvs. parsed \<noteq> PDict kvs"
  shows "extract_fields_with_gemini env raw_text = Inl AttributeError"
  using assms
  by (cases parsed)
     (simp_all add: extract_fields_with_gemini_def enforce_substring_constraints_def Let_def)

lemma get_model_cases: "get_model env = Inr () \<or> (\<exists>e. get_model env = Inl e)"
  by (cases "get_model env") auto

lemma extract_returns_cases:
  assumes "extract_fields_with_gemini env raw_text = Inr d"
  obtains (failed) exc where "get_model env = Inr ()"
      "generate_content env (prompt raw_text) = Inl exc"
  | (unparsable) response where "get_model env = Inr ()"
      "generate_content env (prompt raw_text) = Inr response"
      "json_loads env (strip_code_fence (str_strip response)) = None"
  | (object) response kvs where "get_model env = Inr ()"
      "generate_content env (prompt raw_text) = Inr response"
      "json_loads env (strip_code_fence (str_strip response)) = Some (PDict kvs)"
proof -
  from assms have m: "get_model env = Inr ()"
    using get_model_cases [of env] by (auto simp: extract_unconfigured)
  show thesis
  proof (cases "generate_content env (prompt raw_text)")
    case (Inl exc)
    with m show thesis by (rule failed)
  next
    case (Inr response)
    show thesis
    proof (cases "json_loads env (strip_code_fence (str_strip response))")
      case None
      with m Inr show thesis by (rule unparsable)
    next
      case (Some parsed)
      show thesis
      proof (cases "\<exists>kvs. parsed = PDict kvs")
        case True
        with m Inr Some show thesis by (auto intro: object)
      next
        case False
        then have "extract_fields_with_gemini env raw_text = Inl AttributeError"
          using m Inr Some by (intro extract_not_object) auto
        with assms show thesis by simp
      qed
    qed
  qed
qed

lemma dict_get_null_fields:
  "k \<in> set FIELD_KEYS \<Longrightarrow> dict_get (null_fields @ rest) k = PNone"
  by (auto simp: FIELD_KEYS_def null_fields_def dict_get_def)

lemma dict_get_after_raw_text:
  "k \<in> set FIELD_KEYS \<Longrightarrow> dict_get (dict_set d ''raw_text'' v) k = dict_get d k"
  by (auto simp: FIELD_KEYS_def dict_get_def dict_set_def update_conv')

lemma dict_get_raw_text: "dict_get (dict_set d ''raw_text'' v) ''raw_text'' = v"
  by (simp add: dict_get_def dict_set_def update_conv')

lemma normalize_text_Nil: "normalize_text [] = []"
  by (simp add: normalize_text_def str_lower_def str_split_def)

lemma keys_dict_set: "set (map fst (dict_set d k v)) = insert k (set (map fst d))"
  by (auto simp: dict_set_def update_keys)

lemma keys_null_fields: "map fst null_fields = FIELD_KEYS"
  by (simp add: null_fields_def FIELD_KEYS_def)

lemmas example_defs =
  john_source_def john_fields_def john_response_def fenced_response_def number_response_def
  name_json_def trailing_text_response_def shouted_fields_def broken_source_def
  parsing_env_def strip_fence_pair_def
  blank_response_def other_key_response_def

subsection \<open>The template filler\<close>

lemmas fill_defs =
  generate_filled_pdf_def uses_template_def template_env_def unreadable_env_def path_suffix_def
  path_stem_def path_name_def rfind_dot_def path_div_def str_lower_def label_map_def
  place_label_def field_of_def dict_get_def jane_def name_hit_def no_hits_def empty_page_def
  insert_text_def label_point_def to_str_def summary_page_def summary_text_def or_empty_def
  newline_def inserted_lists_def text_inserted_def non_null_def zero_env_def zero_name_def
  FIELD_KEYS_def str_startswith_def Let_def

lemma str_contains_here: "str_contains s (s @ t)"
proof -
  have "s @ t = [] @ s @ t" by simp
  then show ?thesis unfolding str_contains_iff by blast
qed

lemma str_contains_skip: "str_contains s t \<Longrightarrow> str_contains s (u @ t)"
proof -
  assume "str_contains s t"
  then obtain ps ss where "t = ps @ s @ ss" unfolding str_contains_iff by blast
  then have "u @ t = (u @ ps) @ s @ ss" by simp
  then show ?thesis unfolding str_contains_iff by blast
qed

lemma str_contains_skip3: "str_contains s t \<Longrightarrow> str_contains s (a @ b @ c @ t)"
  by (intro str_contains_skip)

lemma str_contains_self: "str_contains s s"
  using str_contains_here [of s "[]"] by simp

lemma or_empty_str: "or_empty env (PStr s) = s"
  by (simp add: or_empty_def to_str_def)

lemma summary_text_parts:
  "summary_text env flds =
     ''Smart Form Filler - Extracted Data'' @ newline @ newline
       @ ''Name: '' @ or_empty env (field_of flds ''name'') @ newline
       @ ''Date of Birth: '' @ or_empty env (field_of flds ''dob'') @ newline
       @ ''Address: '' @ or_empty env (field_of flds ''address'') @ newline
       @ ''Phone: '' @ or_empty env (field_of flds ''phone'') @ newline
       @ ''Email: '' @ or_empty env (field_of flds ''email'')"
  by (simp add: summary_text_def)

lemma summary_text_shows:
  assumes "k \<in> set FIELD_KEYS" and "truthy (field_of flds k)"
  shows "str_contains (to_str env (field_of flds k)) (summary_text env flds)"
proof -
  from assms(1) consider "k = ''name''" | "k = ''dob''" | "k = ''address''" | "k = ''phone''"
    | "k = ''email''"
    by (auto simp: FIELD_KEYS_def)
  then show ?thesis
  proof cases
    case 1
    with assms(2) have eq: "to_str env (field_of flds k) = or_empty env (field_of flds ''name'')"
      by (simp add: or_empty_def)
    show ?thesis unfolding summary_text_parts eq
      by (rule str_contains_skip, rule str_contains_skip3, rule str_contains_here)
  next
    case 2
    with assms(2) have eq: "to_str env (field_of flds k) = or_empty env (field_of flds ''dob'')"
      by (simp add: or_empty_def)
    show ?thesis unfolding summary_text_parts eq
      by (rule str_contains_skip, rule str_contains_skip3, rule str_contains_skip3, rule str_contains_here)
  next
    case 3
    with assms(2) have eq: "to_str env (field_of flds k) = or_empty env (field_of flds ''address'')"
      by (simp add: or_empty_def)
    show ?thesis unfolding summary_text_parts eq
      by (rule str_contains_skip, rule str_contains_skip3, rule str_contains_skip3, rule str_contains_skip3, rule str_contains_here)
  next
    case 4
    with assms(2) have eq: "to_str env (field_of flds k) = or_empty env (field_of flds ''phone'')"
      by (simp add: or_empty_def)
    show ?thesis unfolding summary_text_parts eq
      by (rule str_contains_skip, rule str_contains_skip3, rule str_contains_skip3, rule str_contains_skip3, rule str_contains_skip3, rule str_contains_here)
  next
    case 5
    with assms(2) have eq: "to_str env (field_of flds k) = or_empty env (field_of flds ''email'')"
      by (simp add: or_empty_def)
    show ?thesis unfolding summary_text_parts eq
      by (rule str_contains_skip, rule str_contains_skip3, rule str_contains_skip3, rule str_contains_skip3, rule str_contains_skip3, rule str_contains_skip3, rule str_contains_self)
  qed
qed

lemma summary_page_lists_truthy: "inserted_lists truthy env flds [summary_page env flds]"
proof -
  have "text_inserted (summary_page env flds) (to_str env (field_of flds k))"
    if "k \<in> set FIELD_KEYS" and "truthy (field_of flds k)" for k
    using summary_text_shows [OF that]
    by (simp add: text_inserted_def summary_page_def insert_text_def)
  then show ?thesis
    by (simp add: inserted_lists_def list_all_iff)
qed

lemma label_point_right_of_box: "x1 r < fst (label_point r)"
  by (simp add: label_point_def)

lemma label_point_middle_iff:
  "snd (label_point r) = (y0 r + y1 r) / 2 \<longleftrightarrow> y0 r = y1 r"
  by (auto simp: label_point_def field_simps)

lemma generate_returns_iff:
  "(\<exists>r. generate_filled_pdf env flds output_dir template = Inr r) \<longleftrightarrow>
     (\<not> uses_template env template
      \<or> (\<exists>t pg rest. template = Some t \<and> fitz_open env t = Inr (pg # rest)))"
  by (auto simp: generate_filled_pdf_def uses_template_def Let_def
           split: option.splits sum.splits list.splits)

section \<open>The claims\<close>

text \<open>
  C1, as amended. In every dictionary that \<open>extract_fields_with_gemini\<close> returns, each
  of the five keys that holds a string holds one whose comparison form (lower case,
  whitespace runs collapsed to single spaces) occurs as a contiguous part of the
  comparison form of the source text.
\<close>

theorem returned_strings_occur_in_source:
  assumes "extract_fields_with_gemini env raw_text = Inr d"
    and "k \<in> set FIELD_KEYS"
    and "dict_get d k = PStr s"
  shows "str_contains (normalize_text s) (normalize_text raw_text)"
  using assms(1)
proof (cases rule: extract_returns_cases)
  case (failed exc)
  from extract_request_failed [OF failed] assms(1) obtain rest where "d = null_fields @ rest"
    by auto
  then have "dict_get d k = PNone"
    using assms(2) by (simp add: dict_get_null_fields)
  with assms(3) show ?thesis by simp
next
  case (unparsable response)
  from extract_unparsable [OF unparsable] assms(1) obtain rest where "d = null_fields @ rest"
    by auto
  then have "dict_get d k = PNone"
    using assms(2) by (simp add: dict_get_null_fields)
  with assms(3) show ?thesis by simp
next
  case (object response kvs)
  let ?checked = "fold (enforce_key (normalize_text raw_text)) FIELD_KEYS kvs"
  from object assms(1) have "d = dict_set ?checked ''raw_text'' (PStr raw_text)"
    by (simp add: extract_object)
  with assms(2,3) have "dict_get ?checked k = PStr s"
    by (simp add: dict_get_after_raw_text)
  then have found: "map_of ?checked k = Some (PStr s)"
    by (auto simp: dict_get_def split: option.splits)
  have "\<not> rejected (normalize_text raw_text) (map_of ?checked k)"
    using assms(2) by (rule not_rejected_enforce_loop)
  with found have "normalize_text s = [] \<or> str_contains (normalize_text s) (normalize_text raw_text)"
    by (simp add: rejected_def)
  then show ?thesis
    using str_contains_Nil by auto
qed

text \<open>
  The theorem at work: the model answers with a name found in the source and a date of
  birth that is not; the name comes back and is found.
\<close>

theorem returned_strings_occur_in_source_witness:
  "extract_fields_with_gemini (answering_env john_response (Some (PDict john_fields))) john_source
     = Inr [(''name'', PStr ''John Smith''), (''dob'', PNone), (''raw_text'', PStr john_source)]
   \<and> ''name'' \<in> set FIELD_KEYS
   \<and> dict_get [(''name'', PStr ''John Smith''), (''dob'', PNone), (''raw_text'', PStr john_source)]
        ''name'' = PStr ''John Smith''
   \<and> str_contains (normalize_text ''John Smith'') (normalize_text john_source)"
proof -
  have run: "extract_fields_with_gemini (answering_env john_response (Some (PDict john_fields)))
      john_source
     = Inr [(''name'', PStr ''John Smith''), (''dob'', PNone), (''raw_text'', PStr john_source)]"
    by (simp add: run_defs example_defs)
  have key: "''name'' \<in> set FIELD_KEYS"
    by (simp add: FIELD_KEYS_def)
  have val: "dict_get [(''name'', PStr ''John Smith''), (''dob'', PNone),
      (''raw_text'', PStr john_source)] ''name'' = PStr ''John Smith''"
    by (simp add: dict_get_def)
  from returned_strings_occur_in_source [OF run key val] run key val
  show ?thesis by simp
qed

text \<open>
  C1 as stated speaks of every value that is not null. The loop checks a value only
  if \<open>isinstance(val, str)\<close>: a JSON number in the model's answer comes back as it
  is, a value that is not null and has no comparison form to be found in the source.
\<close>

theorem number_field_returned_unverified:
  "extract_fields_with_gemini (answering_env number_response (Some (PDict [(''name'', PInt 42)])))
      ''hello''
     = Inr [(''name'', PInt 42), (''raw_text'', PStr ''hello'')]
   \<and> \<not> fields_verified ''hello'' [(''name'', PInt 42), (''raw_text'', PStr ''hello'')]"
  by (simp add: run_defs example_defs fields_verified_def)

text \<open>
  C2, as amended. With the API key configured, whenever the request to the model
  raises, \<open>extract_fields_with_gemini\<close> returns (it does not raise): all five fields are
  \<open>None\<close>, \<open>raw_text\<close> is the input text, and \<open>_error\<close> holds a message that ends with
  the exception's text.
\<close>

theorem request_failure_gives_null_fields:
  assumes "get_model env = Inr ()"
    and "generate_content env (prompt raw_text) = Inl exc"
  shows "extract_fields_with_gemini env raw_text =
           Inr [(''name'', PNone), (''dob'', PNone), (''address'', PNone), (''phone'', PNone),
                (''email'', PNone), (''raw_text'', PStr raw_text),
                (''_error'', PStr (''Gemini request failed: '' @ exc))]"
  using extract_request_failed [OF assms] by (simp add: null_fields_def)

text \<open>
  The theorem at work on a model that answers "404 model not found".
\<close>

theorem request_failure_gives_null_fields_witness:
  "get_model (failing_env ''404 model not found'') = Inr ()
   \<and> generate_content (failing_env ''404 model not found'') (prompt john_source)
       = Inl ''404 model not found''
   \<and> extract_fields_with_gemini (failing_env ''404 model not found'') john_source =
        Inr [(''name'', PNone), (''dob'', PNone), (''address'', PNone), (''phone'', PNone),
             (''email'', PNone), (''raw_text'', PStr john_source),
             (''_error'', PStr ''Gemini request failed: 404 model not found'')]"
proof -
  have m: "get_model (failing_env ''404 model not found'') = Inr ()"
    by (simp add: get_model_def failing_env_def)
  have g: "generate_content (failing_env ''404 model not found'') (prompt john_source)
       = Inl ''404 model not found''"
    by (simp add: failing_env_def)
  from request_failure_gives_null_fields [OF m g] m g show ?thesis by simp
qed

text \<open>
  C2 as stated counts a missing configuration among the failures that are returned as
  a result. \<open>_get_model\<close> is called before the \<open>try\<close> block and raises \<open>RuntimeError\<close>
  when \<open>API_KEY\<close> is not set: the function raises.
\<close>

theorem missing_api_key_raises:
  "extract_fields_with_gemini unconfigured_env john_source
     = Inl (RuntimeError ''GEMINI_API_KEY is not set in environment or .env file'')"
  by (simp add: extract_fields_with_gemini_def get_model_def unconfigured_env_def)

text \<open>
  The fallback of the extractor: when \<open>json.loads\<close> rejects the text that
  \<open>strip_code_fence\<close> leaves, the result has all five fields \<open>None\<close>,
  \<open>_raw_model_output\<close> set to that text, and \<open>raw_text\<close> set to the source text.
\<close>

lemma unparsable_response_gives_null_fields:
  assumes "get_model env = Inr ()"
    and "generate_content env (prompt raw_text) = Inr response"
    and "json_loads env (strip_code_fence (str_strip response)) = None"
  shows "extract_fields_with_gemini env raw_text =
           Inr [(''name'', PNone), (''dob'', PNone), (''address'', PNone), (''phone'', PNone),
                (''email'', PNone),
                (''_raw_model_output'', PStr (strip_code_fence (str_strip response))),
                (''raw_text'', PStr raw_text)]"
  using extract_unparsable [OF assms] by (simp add: null_fields_def)

text \<open>
  The fallback at work on a fenced answer that holds a sentence and no JSON.
\<close>

lemma unparsable_response_gives_null_fields_witness:
  "get_model (answering_env fenced_response None) = Inr ()
   \<and> generate_content (answering_env fenced_response None) (prompt john_source)
       = Inr fenced_response
   \<and> strip_code_fence (str_strip fenced_response) = ''Sorry, no data''
   \<and> json_loads (answering_env fenced_response None) ''Sorry, no data'' = None
   \<and> extract_fields_with_gemini (answering_env fenced_response None) john_source =
        Inr [(''name'', PNone), (''dob'', PNone), (''address'', PNone), (''phone'', PNone),
             (''email'', PNone), (''_raw_model_output'', PStr ''Sorry, no data''),
             (''raw_text'', PStr john_source)]"
proof -
  have m: "get_model (answering_env fenced_response None) = Inr ()"
    by (simp add: get_model_def answering_env_def)
  have g: "generate_content (answering_env fenced_response None) (prompt john_source)
       = Inr fenced_response"
    by (simp add: answering_env_def)
  have t: "strip_code_fence (str_strip fenced_response) = ''Sorry, no data''"
    by (simp add: run_defs example_defs)
  have j: "json_loads (answering_env fenced_response None)
      (strip_code_fence (str_strip fenced_response)) = None"
    by (simp add: answering_env_def)
  from unparsable_response_gives_null_fields [OF m g j] m g j t show ?thesis by simp
qed

text \<open>
  C3 on the code. The model answers with an opening fence line, a line of JSON, and a
  closing line "thanks for asking" that is no fence. The response has no pair of fence
  lines, so the text as the claim takes it is the stripped response, which is not JSON.
  The code drops the last line whatever it is, parses the line of JSON, and returns the
  name, with no \<open>_raw_model_output\<close>.
\<close>

theorem trailing_text_dropped_and_parsed:
  "strip_fence_pair (str_strip trailing_text_response) = str_strip trailing_text_response
   \<and> json_loads
        (parsing_env trailing_text_response name_json (PDict [(''name'', PStr ''John Smith'')]))
        (strip_fence_pair (str_strip trailing_text_response)) = None
   \<and> strip_code_fence (str_strip trailing_text_response) = name_json
   \<and> extract_fields_with_gemini
        (parsing_env trailing_text_response name_json (PDict [(''name'', PStr ''John Smith'')]))
        john_source
      = Inr [(''name'', PStr ''John Smith''), (''raw_text'', PStr john_source)]"
proof -
  have pair: "strip_fence_pair (str_strip trailing_text_response)
      = str_strip trailing_text_response"
    by (simp add: run_defs example_defs)
  have code: "strip_code_fence (str_strip trailing_text_response) = name_json"
    by (simp add: run_defs example_defs)
  have differ: "str_strip trailing_text_response \<noteq> name_json"
    by (simp add: run_defs example_defs)
  have run: "extract_fields_with_gemini
        (parsing_env trailing_text_response name_json (PDict [(''name'', PStr ''John Smith'')]))
        john_source
      = Inr [(''name'', PStr ''John Smith''), (''raw_text'', PStr john_source)]"
  proof -
    let ?env = "parsing_env trailing_text_response name_json
      (PDict [(''name'', PStr ''John Smith'')])"
    have m: "get_model ?env = Inr ()"
      by (simp add: get_model_def parsing_env_def)
    have g: "generate_content ?env (prompt john_source) = Inr trailing_text_response"
      by (simp add: parsing_env_def)
    have j: "json_loads ?env (strip_code_fence (str_strip trailing_text_response))
        = Some (PDict [(''name'', PStr ''John Smith'')])"
      unfolding code by (simp add: parsing_env_def)
    from extract_object [OF m g j] show ?thesis
      by (simp add: enforce_key_def FIELD_KEYS_def dict_get_def dict_set_def normalize_text_def
            str_lower_def str_split_def isspace_def str_startswith_def john_source_def)
  qed
  from pair code differ run show ?thesis
    by (simp add: parsing_env_def)
qed

text \<open>
  C4. On every parsed object and every source text the verifier returns; a field
  whose string is absent from the source text (in comparison form) becomes \<open>None\<close>, a
  field whose string is present keeps it; the keys are the same, in the same order, so
  nothing marks the nulling; every other entry is as it was.
\<close>

theorem verifier_nulls_absent_keeps_present:
  "\<exists>d'. enforce_substring_constraints (PDict d) raw_text = Inr d'
     \<and> map fst d' = map fst d
     \<and> (\<forall>k \<in> set FIELD_KEYS. \<forall>s. dict_get d k = PStr s \<longrightarrow>
           dict_get d' k =
             (if str_contains (normalize_text s) (normalize_text raw_text) then PStr s
              else PNone))
     \<and> (\<forall>k. k \<notin> set FIELD_KEYS \<or> (\<forall>s. dict_get d k \<noteq> PStr s) \<longrightarrow>
           map_of d' k = map_of d k)"
proof -
  let ?n = "normalize_text raw_text"
  let ?d' = "fold (enforce_key ?n) FIELD_KEYS d"
  have run: "enforce_substring_constraints (PDict d) raw_text = Inr ?d'"
    by (simp add: enforce_substring_constraints_def)
  have keys: "map fst ?d' = map fst d"
    by (rule keys_enforce_loop)
  have strs: "dict_get ?d' k =
      (if str_contains (normalize_text s) ?n then PStr s else PNone)"
    if "k \<in> set FIELD_KEYS" and "dict_get d k = PStr s" for k s
  proof -
    from that(2) have m: "map_of d k = Some (PStr s)"
      by (auto simp: dict_get_def split: option.splits)
    show ?thesis
    proof (cases "str_contains (normalize_text s) ?n")
      case True
      then have "\<not> rejected ?n (map_of d k)" by (simp add: rejected_def m)
      then show ?thesis using True m by (simp add: dict_get_def map_of_enforce_loop)
    next
      case False
      then have "normalize_text s \<noteq> []" using str_contains_Nil [of ?n] by auto
      with False have "rejected ?n (map_of d k)" by (simp add: rejected_def m)
      then show ?thesis using False that(1) by (simp add: dict_get_def map_of_enforce_loop)
    qed
  qed
  have others: "map_of ?d' k = map_of d k"
    if "k \<notin> set FIELD_KEYS \<or> (\<forall>s. dict_get d k \<noteq> PStr s)" for k
  proof -
    from that have "k \<notin> set FIELD_KEYS \<or> \<not> rejected ?n (map_of d k)"
      by (auto simp: rejected_def dict_get_def split: option.splits pyobj.splits)
    then show ?thesis by (auto simp: map_of_enforce_loop)
  qed
  from run keys strs others show ?thesis by blast
qed

text \<open>
  The theorem at work, twice. First the example of the specification: the source is
  "John Smith lives in Texas", the model gives the name "John Smith" and the date of
  birth "1990-01-01"; the name is kept and the date of birth is nulled. Then a name in
  capitals with three spaces, for a source with two spaces and a line break: lower case
  and single spaces make the name present, and it is kept as the model wrote it.
\<close>

theorem verifier_nulls_absent_keeps_present_witness:
  "enforce_substring_constraints (PDict john_fields) john_source
     = Inr [(''name'', PStr ''John Smith''), (''dob'', PNone)]
   \<and> enforce_substring_constraints (PDict shouted_fields) broken_source
     = Inr [(''name'', PStr ''JOHN   SMITH''), (''dob'', PNone)]
   \<and> normalize_text ''JOHN   SMITH'' = ''john smith''
   \<and> normalize_text broken_source = ''john smith lives in texas''
   \<and> \<not> str_contains ''JOHN   SMITH'' broken_source
   \<and> \<not> str_contains (normalize_text ''1990-01-01'') (normalize_text broken_source)"
proof -
  have run: "enforce_substring_constraints (PDict john_fields) john_source
     = Inr [(''name'', PStr ''John Smith''), (''dob'', PNone)]"
    by (simp add: run_defs example_defs)
  have name_form: "normalize_text ''JOHN   SMITH'' = ''john smith''"
    by (simp add: run_defs)
  have source_form: "normalize_text broken_source = ''john smith lives in texas''"
    by (simp add: run_defs example_defs)
  have verbatim: "\<not> str_contains ''JOHN   SMITH'' broken_source"
    by (simp add: run_defs example_defs)
  have date_form: "normalize_text ''1990-01-01'' = ''1990-01-01''"
    by (simp add: run_defs)
  have found: "str_contains (normalize_text ''JOHN   SMITH'') (normalize_text broken_source)"
    unfolding name_form source_form by (simp add: str_startswith_def)
  have missing: "\<not> str_contains (normalize_text ''1990-01-01'') (normalize_text broken_source)"
    unfolding date_form source_form by (simp add: str_startswith_def)
  have name: "dict_get shouted_fields ''name'' = PStr ''JOHN   SMITH''"
    and dob: "dict_get shouted_fields ''dob'' = PStr ''1990-01-01''"
    by (simp_all add: dict_get_def shouted_fields_def)
  from verifier_nulls_absent_keeps_present [of shouted_fields broken_source]
  obtain d' where d': "enforce_substring_constraints (PDict shouted_fields) broken_source = Inr d'"
    and keys: "map fst d' = map fst shouted_fields"
    and fields: "\<forall>k \<in> set FIELD_KEYS. \<forall>s. dict_get shouted_fields k = PStr s \<longrightarrow>
           dict_get d' k =
             (if str_contains (normalize_text s) (normalize_text broken_source) then PStr s
              else PNone)"
    by blast
  have "''name'' \<in> set FIELD_KEYS" and "''dob'' \<in> set FIELD_KEYS"
    by (simp_all add: FIELD_KEYS_def)
  with fields name dob found missing
  have kept: "dict_get d' ''name'' = PStr ''JOHN   SMITH''"
    and nulled: "dict_get d' ''dob'' = PNone"
    by auto
  from keys obtain v w where shape: "d' = [(''name'', v), (''dob'', w)]"
    by (auto simp: shouted_fields_def map_eq_Cons_conv)
  with kept nulled have "d' = [(''name'', PStr ''JOHN   SMITH''), (''dob'', PNone)]"
    by (simp add: dict_get_def)
  with d' run name_form source_form verbatim missing show ?thesis
    by simp
qed

text \<open>
  C10. Applying \<open>_enforce_substring_constraints\<close> to its own result, with the same
  source text, gives that result again.
\<close>

theorem enforce_idempotent:
  "\<exists>d'. enforce_substring_constraints (PDict d) raw_text = Inr d'
     \<and> enforce_substring_constraints (PDict d') raw_text = Inr d'"
proof -
  let ?n = "normalize_text raw_text"
  let ?d' = "fold (enforce_key ?n) FIELD_KEYS d"
  have "\<forall>k \<in> set FIELD_KEYS. \<not> rejected ?n (map_of ?d' k)"
    by (simp add: not_rejected_enforce_loop)
  then have "fold (enforce_key ?n) FIELD_KEYS ?d' = ?d'"
    by (rule enforce_loop_accepted)
  then show ?thesis
    by (simp add: enforce_substring_constraints_def)
qed

text \<open>
  The theorem at work on the example above.
\<close>

theorem enforce_idempotent_witness:
  "enforce_substring_constraints (PDict john_fields) john_source
     = Inr [(''name'', PStr ''John Smith''), (''dob'', PNone)]
   \<and> enforce_substring_constraints (PDict [(''name'', PStr ''John Smith''), (''dob'', PNone)])
       john_source
     = Inr [(''name'', PStr ''John Smith''), (''dob'', PNone)]"
proof -
  have run: "enforce_substring_constraints (PDict john_fields) john_source
     = Inr [(''name'', PStr ''John Smith''), (''dob'', PNone)]"
    by (simp add: run_defs example_defs)
  from enforce_idempotent [of john_fields john_source] run
  show ?thesis by auto
qed

text \<open>
  C5, as amended. For the empty source text, with the API key configured and a response
  that is a failed request, a text that is not JSON, or a JSON object,
  \<open>extract_fields_with_gemini\<close> returns (it does not raise), and in the dictionary
  none of the five fields holds a string with a character that is not whitespace.
\<close>

theorem empty_source_leaves_no_visible_string:
  assumes "get_model env = Inr ()" and "object_or_failure env []"
  shows "\<exists>d. extract_fields_with_gemini env [] = Inr d
           \<and> (\<forall>k \<in> set FIELD_KEYS. \<forall>s. dict_get d k = PStr s \<longrightarrow> list_all isspace s)"
proof (cases "generate_content env (prompt [])")
  case (Inl exc)
  from extract_request_failed [OF assms(1) Inl] show ?thesis
    by (simp add: dict_get_null_fields)
next
  case (Inr response)
  show ?thesis
  proof (cases "json_loads env (strip_code_fence (str_strip response))")
    case None
    from extract_unparsable [OF assms(1) Inr None] show ?thesis
      by (simp add: dict_get_null_fields)
  next
    case (Some parsed)
    with assms(2) Inr obtain kvs where parsed: "parsed = PDict kvs"
      by (auto simp: object_or_failure_def split: pyobj.splits)
    let ?checked = "fold (enforce_key (normalize_text [])) FIELD_KEYS kvs"
    have run: "extract_fields_with_gemini env [] = Inr (dict_set ?checked ''raw_text'' (PStr []))"
      using extract_object [OF assms(1) Inr] Some parsed by simp
    have "list_all isspace s"
      if k: "k \<in> set FIELD_KEYS" and v: "dict_get (dict_set ?checked ''raw_text'' (PStr [])) k = PStr s"
      for k s
    proof -
      from k v have "dict_get ?checked k = PStr s"
        by (simp add: dict_get_after_raw_text)
      then have found: "map_of ?checked k = Some (PStr s)"
        by (auto simp: dict_get_def split: option.splits)
      have "\<not> rejected (normalize_text []) (map_of ?checked k)"
        using k by (rule not_rejected_enforce_loop)
      with found have "normalize_text s = []"
        by (simp add: rejected_def normalize_text_Nil)
      then show ?thesis by (simp add: normalize_text_empty)
    qed
    with run show ?thesis by blast
  qed
qed

text \<open>
  The theorem at work: the model gives a name and a date of birth for an empty source
  text; both come back as \<open>None\<close>.
\<close>

theorem empty_source_leaves_no_visible_string_witness:
  "get_model (answering_env john_response (Some (PDict john_fields))) = Inr ()
   \<and> object_or_failure (answering_env john_response (Some (PDict john_fields))) []
   \<and> extract_fields_with_gemini (answering_env john_response (Some (PDict john_fields))) []
       = Inr [(''name'', PNone), (''dob'', PNone), (''raw_text'', PStr [])]"
proof -
  have m: "get_model (answering_env john_response (Some (PDict john_fields))) = Inr ()"
    by (simp add: get_model_def answering_env_def)
  have o: "object_or_failure (answering_env john_response (Some (PDict john_fields))) []"
    by (simp add: object_or_failure_def run_defs example_defs)
  have run: "extract_fields_with_gemini (answering_env john_response (Some (PDict john_fields))) []
       = Inr [(''name'', PNone), (''dob'', PNone), (''raw_text'', PStr [])]"
    by (simp add: run_defs example_defs)
  from empty_source_leaves_no_visible_string [OF m o] m o run show ?thesis by simp
qed

text \<open>
  C5 as stated promises \<open>None\<close> in all five fields whatever the model answers. The
  loop nulls a string only if \<open>val_norm\<close> is not empty: a string of one space in the
  model's answer comes back as it is.
\<close>

theorem blank_string_kept_for_empty_source:
  "extract_fields_with_gemini (answering_env blank_response (Some (PDict [(''name'', PStr '' '')])))
      []
     = Inr [(''name'', PStr '' ''), (''raw_text'', PStr [])]
   \<and> \<not> all_fields_null [(''name'', PStr '' ''), (''raw_text'', PStr [])]"
  by (simp add: run_defs example_defs all_fields_null_def)

text \<open>
  C9, as amended. Every dictionary that \<open>extract_fields_with_gemini\<close> returns holds
  the source text under \<open>raw_text\<close>, and its keys follow the path taken: after a failed
  request, the five fields, \<open>raw_text\<close> and \<open>_error\<close>; after a response that is not
  JSON, the five fields, \<open>raw_text\<close> and \<open>_raw_model_output\<close>; after a response that is
  a JSON object, the keys of that object and \<open>raw_text\<close>.
\<close>

theorem result_keys_follow_path:
  assumes "extract_fields_with_gemini env raw_text = Inr d"
  shows "set (map fst d) = result_keys env raw_text \<and> dict_get d ''raw_text'' = PStr raw_text"
  using assms
proof (cases rule: extract_returns_cases)
  case (failed exc)
  from extract_request_failed [OF failed] assms
  have d: "d = null_fields @ [(''raw_text'', PStr raw_text),
      (''_error'', PStr (''Gemini request failed: '' @ exc))]"
    by simp
  have k: "result_keys env raw_text = set FIELD_KEYS \<union> {''raw_text'', ''_error''}"
    using failed(2) by (simp add: result_keys_def)
  have "set (map fst d) = set FIELD_KEYS \<union> {''raw_text'', ''_error''}"
    unfolding d by (simp add: keys_null_fields)
  moreover have "dict_get d ''raw_text'' = PStr raw_text"
    unfolding d by (simp add: null_fields_def dict_get_def)
  ultimately show ?thesis using k by simp
next
  case (unparsable response)
  from extract_unparsable [OF unparsable] assms
  have d: "d = null_fields @ [(''_raw_model_output'', PStr (strip_code_fence (str_strip response))),
      (''raw_text'', PStr raw_text)]"
    by simp
  have k: "result_keys env raw_text = set FIELD_KEYS \<union> {''_raw_model_output'', ''raw_text''}"
    using unparsable(2,3) by (auto simp: result_keys_def)
  have "set (map fst d) = set FIELD_KEYS \<union> {''_raw_model_output'', ''raw_text''}"
    unfolding d by (simp add: keys_null_fields)
  moreover have "dict_get d ''raw_text'' = PStr raw_text"
    unfolding d by (simp add: null_fields_def dict_get_def)
  ultimately show ?thesis using k by simp
next
  case (object response kvs)
  let ?checked = "fold (enforce_key (normalize_text raw_text)) FIELD_KEYS kvs"
  from extract_object [OF object] assms
  have d: "d = dict_set ?checked ''raw_text'' (PStr raw_text)"
    by simp
  have k: "result_keys env raw_text = set (map fst kvs) \<union> {''raw_text''}"
    using object(2,3) by (simp add: result_keys_def)
  have "set (map fst d) = insert ''raw_text'' (set (map fst ?checked))"
    unfolding d by (rule keys_dict_set)
  also have "map fst ?checked = map fst kvs"
    by (rule keys_enforce_loop)
  finally have "set (map fst d) = set (map fst kvs) \<union> {''raw_text''}"
    by blast
  moreover have "dict_get d ''raw_text'' = PStr raw_text"
    unfolding d by (rule dict_get_raw_text)
  ultimately show ?thesis using k by simp
qed

text \<open>
  The theorem at work: the model's object has the keys \<open>name\<close> and \<open>dob\<close>, and so
  has the result, with \<open>raw_text\<close>.
\<close>

theorem result_keys_follow_path_witness:
  "extract_fields_with_gemini (answering_env john_response (Some (PDict john_fields))) john_source
     = Inr [(''name'', PStr ''John Smith''), (''dob'', PNone), (''raw_text'', PStr john_source)]
   \<and> set (map fst [(''name'', PStr ''John Smith''), (''dob'', PNone),
                    (''raw_text'', PStr john_source)])
     = result_keys (answering_env john_response (Some (PDict john_fields))) john_source"
proof -
  have run: "extract_fields_with_gemini (answering_env john_response (Some (PDict john_fields)))
      john_source
     = Inr [(''name'', PStr ''John Smith''), (''dob'', PNone), (''raw_text'', PStr john_source)]"
    by (simp add: run_defs example_defs)
  from result_keys_follow_path [OF run] run show ?thesis by blast
qed

text \<open>
  C9 as stated fixes the keys whatever the model's object holds. The parsed object is
  returned as it is, but for nulled fields and \<open>raw_text\<close>: a key \<open>foo\<close> of the model
  comes back, and the five fields it left out are not added.
\<close>

theorem model_keys_returned:
  "extract_fields_with_gemini (answering_env other_key_response (Some (PDict [(''foo'', PInt 1)])))
      john_source
     = Inr [(''foo'', PInt 1), (''raw_text'', PStr john_source)]
   \<and> \<not> extracted_shape john_source [(''foo'', PInt 1), (''raw_text'', PStr john_source)]"
proof -
  have run: "extract_fields_with_gemini
      (answering_env other_key_response (Some (PDict [(''foo'', PInt 1)]))) john_source
     = Inr [(''foo'', PInt 1), (''raw_text'', PStr john_source)]"
    by (simp add: run_defs example_defs)
  have "\<not> extracted_shape john_source [(''foo'', PInt 1), (''raw_text'', PStr john_source)]"
    by (simp add: extracted_shape_def FIELD_KEYS_def)
  with run show ?thesis by blast
qed

text \<open>
  C6, as amended. When no template PDF is used (none is given, or the path is not a file,
  or its suffix is not \<open>.pdf\<close>), \<open>generate_filled_pdf\<close> writes \<open>filled_form.pdf\<close> with one
  new page, for which the summary text is handed to \<open>insert_text\<close> at (72, 72) in size
  12; that text lists the five fields, and the string of every field value that is
  truthy is part of it.
\<close>

theorem no_template_gives_summary:
  assumes "\<not> uses_template env template"
  shows "generate_filled_pdf env flds output_dir template =
           Inr \<lparr>returned = path_div output_dir ''filled_form.pdf'',
                saved_path = path_div output_dir ''filled_form.pdf'',
                saved_doc = [summary_page env flds]\<rparr>
         \<and> inserted_lists truthy env flds [summary_page env flds]"
  using assms by (simp add: generate_filled_pdf_def Let_def summary_page_lists_truthy)

text \<open>
  The theorem at work, with no template and the name "Jane Doe".
\<close>

theorem no_template_gives_summary_witness:
  "\<not> uses_template (template_env [empty_page] name_hit) None
   \<and> generate_filled_pdf (template_env [empty_page] name_hit) jane [''uploads''] None =
       Inr \<lparr>returned = [''uploads'', ''filled_form.pdf''],
            saved_path = [''uploads'', ''filled_form.pdf''],
            saved_doc = [summary_page (template_env [empty_page] name_hit) jane]\<rparr>
   \<and> inserted_lists truthy (template_env [empty_page] name_hit) jane
       [summary_page (template_env [empty_page] name_hit) jane]
   \<and> text_inserted (summary_page (template_env [empty_page] name_hit) jane) ''Name: Jane Doe''"
proof -
  have no: "\<not> uses_template (template_env [empty_page] name_hit) None"
    by (simp add: uses_template_def)
  have shown: "text_inserted (summary_page (template_env [empty_page] name_hit) jane)
      ''Name: Jane Doe''"
    by (simp add: fill_defs)
  from no_template_gives_summary [OF no, of jane "[''uploads'']"] no shown show ?thesis
    by (simp add: path_div_def)
qed

text \<open>
  C6 as stated also promises the summary page when a template is used and none of the
  labels is found on its first page, and it promises every value that is not null. The
  summary is written in the \<open>else\<close> branch of the template test only: with a template
  on which no label is found, the document saved is the template as it was opened, and
  the name is in no inserted text. And the summary prints \<open>v or ''\<close>: with no template and
  the name 0, the summary is written and "0" is not part of it.
\<close>

theorem template_without_labels_left_unfilled:
  "generate_filled_pdf (template_env [empty_page] no_hits) jane [''uploads'']
     (Some [''uploads'', ''form.pdf''])
   = Inr \<lparr>returned = [''uploads'', ''form_filled.pdf''],
          saved_path = [''uploads'', ''form_filled.pdf''],
          saved_doc = [empty_page]\<rparr>
   \<and> \<not> inserted_lists non_null (template_env [empty_page] no_hits) jane [empty_page]
   \<and> generate_filled_pdf zero_env zero_name [''uploads''] None
   = Inr \<lparr>returned = [''uploads'', ''filled_form.pdf''],
          saved_path = [''uploads'', ''filled_form.pdf''],
          saved_doc = [summary_page zero_env zero_name]\<rparr>
   \<and> \<not> inserted_lists non_null zero_env zero_name [summary_page zero_env zero_name]"
proof -
  have a: "generate_filled_pdf (template_env [empty_page] no_hits) jane [''uploads'']
     (Some [''uploads'', ''form.pdf''])
   = Inr \<lparr>returned = [''uploads'', ''form_filled.pdf''],
          saved_path = [''uploads'', ''form_filled.pdf''],
          saved_doc = [empty_page]\<rparr>"
    by (simp add: fill_defs)
  have b: "\<not> inserted_lists non_null (template_env [empty_page] no_hits) jane [empty_page]"
    by (simp add: fill_defs)
  have c: "generate_filled_pdf zero_env zero_name [''uploads''] None
   = Inr \<lparr>returned = [''uploads'', ''filled_form.pdf''],
          saved_path = [''uploads'', ''filled_form.pdf''],
          saved_doc = [summary_page zero_env zero_name]\<rparr>"
    by (simp add: generate_filled_pdf_def uses_template_def path_div_def Let_def)
  have d: "\<not> inserted_lists non_null zero_env zero_name [summary_page zero_env zero_name]"
    by (simp add: fill_defs)
  from a b c d show ?thesis by blast
qed

text \<open>
  C7, as amended. Whenever \<open>generate_filled_pdf\<close> returns, it returns the path it saved
  the document to; that path is the output directory followed by one name, which is the
  stem of the template followed by \<open>_filled.pdf\<close> when a template PDF is used, and
  \<open>filled_form.pdf\<close> otherwise.
\<close>

theorem returned_path_names_written_file:
  assumes "generate_filled_pdf env flds output_dir template = Inr r"
  shows "returned r = saved_path r
         \<and> butlast (returned r) = output_dir
         \<and> path_name (returned r) =
             (case template of
                None \<Rightarrow> ''filled_form.pdf''
              | Some t \<Rightarrow> if uses_template env template then path_stem t @ ''_filled.pdf''
                          else ''filled_form.pdf'')"
  using assms
  by (auto simp: generate_filled_pdf_def uses_template_def Let_def path_div_def path_name_def
           split: option.splits sum.splits list.splits if_splits)

text \<open>
  The theorem at work on the template \<open>uploads/form.pdf\<close>.
\<close>

theorem returned_path_names_written_file_witness:
  "generate_filled_pdf (template_env [empty_page] name_hit) jane [''uploads'']
     (Some [''uploads'', ''form.pdf''])
   = Inr \<lparr>returned = [''uploads'', ''form_filled.pdf''],
          saved_path = [''uploads'', ''form_filled.pdf''],
          saved_doc = [\<lparr>content = (), inserted =
             [\<lparr>ins_point = (158, 207), ins_text = ''Jane Doe'', ins_fontsize = 10,
               ins_fill = Some (0, 0, 0)\<rparr>]\<rparr>]\<rparr>
   \<and> uses_template (template_env [empty_page] name_hit) (Some [''uploads'', ''form.pdf''])
   \<and> path_stem [''uploads'', ''form.pdf''] @ ''_filled.pdf'' = ''form_filled.pdf''
   \<and> path_name [''uploads'', ''form_filled.pdf''] = ''form_filled.pdf''"
proof -
  have run: "generate_filled_pdf (template_env [empty_page] name_hit) jane [''uploads'']
     (Some [''uploads'', ''form.pdf''])
   = Inr \<lparr>returned = [''uploads'', ''form_filled.pdf''],
          saved_path = [''uploads'', ''form_filled.pdf''],
          saved_doc = [\<lparr>content = (), inserted =
             [\<lparr>ins_point = (158, 207), ins_text = ''Jane Doe'', ins_fontsize = 10,
               ins_fill = Some (0, 0, 0)\<rparr>]\<rparr>]\<rparr>"
    by (simp add: fill_defs)
  have used: "uses_template (template_env [empty_page] name_hit)
      (Some [''uploads'', ''form.pdf''])"
    by (simp add: fill_defs)
  have stem: "path_stem [''uploads'', ''form.pdf''] @ ''_filled.pdf'' = ''form_filled.pdf''"
    by (simp add: fill_defs)
  from returned_path_names_written_file [OF run] run used stem show ?thesis
    by simp
qed

text \<open>
  C7 as stated has the function return always. A template that is a file named
  \<open>.pdf\<close> is opened without a \<open>try\<close>; when the library cannot read it, the exception
  leaves the function and no path is returned (\<open>generate_returns_iff\<close> says when one is).
\<close>

theorem unreadable_template_raises:
  "uses_template unreadable_env (Some [''uploads'', ''form.pdf''])
   \<and> generate_filled_pdf unreadable_env jane [''uploads''] (Some [''uploads'', ''form.pdf''])
     = Inl (FileDataError ''Failed to open file'')"
  by (simp add: fill_defs)

text \<open>
  C8 on the code. The label "Name:" is found at the box from (100, 200) to (150, 210);
  the name is inserted at x = 158, to the right of the box, and at y = 207, which is
  seven tenths of the way down the box and not its middle, 205
  (\<open>label_point_middle_iff\<close>: the two agree only for a box of no height).
\<close>

theorem value_placed_below_middle:
  "generate_filled_pdf (template_env [empty_page] name_hit) jane [''uploads'']
     (Some [''uploads'', ''form.pdf''])
   = Inr \<lparr>returned = [''uploads'', ''form_filled.pdf''],
          saved_path = [''uploads'', ''form_filled.pdf''],
          saved_doc = [\<lparr>content = (), inserted =
             [\<lparr>ins_point = (158, 207), ins_text = ''Jane Doe'', ins_fontsize = 10,
               ins_fill = Some (0, 0, 0)\<rparr>]\<rparr>]\<rparr>
   \<and> name_hit ''Name:'' = [\<lparr>x0 = 100, y0 = 200, x1 = 150, y1 = 210\<rparr>]
   \<and> (207 :: real) \<noteq> (200 + 210) / 2"
  by (simp add: fill_defs)

end
